theory Spec2Isabelle
  imports Main
begin

section \<open>Python values and classes\<close>

text \<open>
  The predicates of \<^verbatim>\<open>jsonschema/_types.py\<close> only ask for the class of a value
  (\<^verbatim>\<open>isinstance\<close>) or whether it is \<^verbatim>\<open>None\<close>. Values are the Python 3 values a
  decoded JSON document or a caller can hand to a validator: \<^verbatim>\<open>None\<close>, booleans,
  integers, floats (mantissa and binary exponent; only the class is ever inspected),
  strings, lists, tuples and dictionaries (their items, in order).
\<close>

datatype pyclass =
    Cls_object | Cls_NoneType | Cls_bool | Cls_int | Cls_float | Cls_str
  | Cls_list | Cls_tuple | Cls_dict | Cls_Number

datatype pyval =
    PyNone
  | PyBool bool
  | PyInt int
  | PyFloat int int
  | PyStr string
  | PyList "pyval list"
  | PyTuple "pyval list"
  | PyDict "(pyval \<times> pyval) list"

fun type_of :: "pyval \<Rightarrow> pyclass" where
  "type_of PyNone = Cls_NoneType"
| "type_of (PyBool b) = Cls_bool"
| "type_of (PyInt n) = Cls_int"
| "type_of (PyFloat m e) = Cls_float"
| "type_of (PyStr s) = Cls_str"
| "type_of (PyList xs) = Cls_list"
| "type_of (PyTuple xs) = Cls_tuple"
| "type_of (PyDict kvs) = Cls_dict"

text \<open>
  The class hierarchy: every class derives from \<^verbatim>\<open>object\<close>, \<^verbatim>\<open>bool\<close> derives from
  \<^verbatim>\<open>int\<close>, and \<^verbatim>\<open>int\<close> and \<^verbatim>\<open>float\<close> are registered with the abstract base class
  \<^verbatim>\<open>numbers.Number\<close> (so \<^verbatim>\<open>bool\<close> is a \<^verbatim>\<open>Number\<close> too).
\<close>

fun issubclass :: "pyclass \<Rightarrow> pyclass \<Rightarrow> bool" where
  "issubclass c Cls_object = True"
| "issubclass c Cls_Number = (c = Cls_Number \<or> c = Cls_bool \<or> c = Cls_int \<or> c = Cls_float)"
| "issubclass c Cls_int = (c = Cls_int \<or> c = Cls_bool)"
| "issubclass c d = (c = d)"

definition isinstance :: "pyval \<Rightarrow> pyclass \<Rightarrow> bool" where
  "isinstance instance cls = issubclass (type_of instance) cls"

text \<open>\<^verbatim>\<open>isinstance\<close> with a tuple of classes: the value is an instance of one of them.\<close>

definition isinstance_any :: "pyval \<Rightarrow> pyclass list \<Rightarrow> bool" where
  "isinstance_any instance clss = list_ex (isinstance instance) clss"

text \<open>
  Modelled from the spec: \<^verbatim>\<open>int_types\<close> and \<^verbatim>\<open>str_types\<close> are imported from
  \<^verbatim>\<open>jsonschema.compat\<close>, which is not among the sources. The spec gives "integer" to
  integral numbers and "string" to textual values; on Python 3 these are the one-element
  tuples \<^verbatim>\<open>(int,)\<close> and \<^verbatim>\<open>(str,)\<close>.
\<close>

definition int_types :: "pyclass list" where
  "int_types = [Cls_int]"

definition str_types :: "pyclass list" where
  "str_types = [Cls_str]"

section \<open>The type predicates\<close>

text \<open>
  Each predicate takes the calling checker and the instance. The built-in ones never
  look at the checker, so its type is left open.
\<close>

definition is_array :: "'c \<Rightarrow> pyval \<Rightarrow> bool" where
  "is_array checker instance = isinstance instance Cls_list"

definition is_bool :: "'c \<Rightarrow> pyval \<Rightarrow> bool" where
  "is_bool checker instance = isinstance instance Cls_bool"

definition is_integer :: "'c \<Rightarrow> pyval \<Rightarrow> bool" where
  "is_integer checker instance =
     (if isinstance instance Cls_bool then False
      else isinstance_any instance int_types)"

definition is_null :: "'c \<Rightarrow> pyval \<Rightarrow> bool" where
  "is_null checker instance = (instance = PyNone)"

definition is_number :: "'c \<Rightarrow> pyval \<Rightarrow> bool" where
  "is_number checker instance =
     (if isinstance instance Cls_bool then False
      else isinstance instance Cls_Number)"

definition is_object :: "'c \<Rightarrow> pyval \<Rightarrow> bool" where
  "is_object checker instance = isinstance instance Cls_dict"

definition is_string :: "'c \<Rightarrow> pyval \<Rightarrow> bool" where
  "is_string checker instance = isinstance_any instance str_types"

definition is_any :: "'c \<Rightarrow> pyval \<Rightarrow> bool" where
  "is_any checker instance = True"

section \<open>Function objects, checkers and the object store\<close>

text \<open>
  A checker maps type names to function objects. A function object is one of the eight
  module-level predicates or a function supplied by a caller, \<open>User u\<close>. What a caller's
  function computes is given by an interpretation \<open>user\<close>: by the contract documented
  at \<^verbatim>\<open>redefine\<close> it takes the calling checker and the instance and returns a boolean.
\<close>

datatype 'u pyfunction =
    Is_array | Is_bool | Is_integer | Is_null | Is_number | Is_object | Is_string | Is_any
  | User 'u

type_synonym 'v pmap = "string \<rightharpoonup> 'v"

record 'u TypeChecker =
  type_checkers :: "'u pyfunction pmap"

fun call :: "('u \<Rightarrow> 'u TypeChecker \<Rightarrow> pyval \<Rightarrow> bool) \<Rightarrow> 'u pyfunction \<Rightarrow>
    'u TypeChecker \<Rightarrow> pyval \<Rightarrow> bool" where
  "call user Is_array checker instance = is_array checker instance"
| "call user Is_bool checker instance = is_bool checker instance"
| "call user Is_integer checker instance = is_integer checker instance"
| "call user Is_null checker instance = is_null checker instance"
| "call user Is_number checker instance = is_number checker instance"
| "call user Is_object checker instance = is_object checker instance"
| "call user Is_string checker instance = is_string checker instance"
| "call user Is_any checker instance = is_any checker instance"
| "call user (User u) checker instance = user u checker instance"

text \<open>
  Python variables hold references. The store lists the \<^verbatim>\<open>TypeChecker\<close> instances
  created so far; a reference is an index into it, and creating an instance appends to
  it. The class is frozen and its attribute is a persistent map, so no operation below
  writes to an existing cell: that is what the frame theorems establish.
\<close>

type_synonym addr = nat

type_synonym 'u heap = "'u TypeChecker list"

definition alloc :: "'u heap \<Rightarrow> 'u TypeChecker \<Rightarrow> 'u heap \<times> addr" where
  "alloc h obj = (h @ [obj], length h)"

datatype exn = KeyError string | UndefinedTypeCheck string

subsection \<open>The operations of dict and pyrsistent that the class uses\<close>

text \<open>\<^verbatim>\<open>dict(pairs)\<close>: a later pair overwrites an earlier one with the same key.\<close>

definition dict :: "(string \<times> 'v) list \<Rightarrow> 'v pmap" where
  "dict pairs = foldl (\<lambda>m (k, v). m(k \<mapsto> v)) Map.empty pairs"

text \<open>\<^verbatim>\<open>m[key]\<close> on a persistent map.\<close>

definition pmap_getitem :: "'v pmap \<Rightarrow> string \<Rightarrow> exn + 'v" where
  "pmap_getitem m key = (case m key of None \<Rightarrow> Inl (KeyError key) | Some v \<Rightarrow> Inr v)"

text \<open>\<^verbatim>\<open>m.update(d)\<close>: a new persistent map, the entries of \<open>d\<close> taking precedence.\<close>

definition pmap_update :: "'v pmap \<Rightarrow> 'v pmap \<Rightarrow> 'v pmap" where
  "pmap_update m d = m ++ d"

text \<open>
  \<^verbatim>\<open>del evolver[key]\<close>: the evolver is a mutable working copy local to
  \<^verbatim>\<open>remove_many\<close>; deleting returns the updated copy or raises \<^verbatim>\<open>KeyError\<close>.
\<close>

definition evolver_delitem :: "'v pmap \<Rightarrow> string \<Rightarrow> exn + 'v pmap" where
  "evolver_delitem evolver key =
     (case evolver key of None \<Rightarrow> Inl (KeyError key) | Some v \<Rightarrow> Inr (evolver(key := None)))"

text \<open>
  \<^verbatim>\<open>attr.evolve(self, type_checkers=m)\<close>: a new instance, a copy of \<open>self\<close> with the
  attribute replaced.
\<close>

definition evolve :: "'u heap \<Rightarrow> addr \<Rightarrow> 'u pyfunction pmap \<Rightarrow> 'u heap \<times> addr" where
  "evolve h self m = alloc h ((h ! self)\<lparr>type_checkers := m\<rparr>)"

text \<open>The constructor \<^verbatim>\<open>TypeChecker(d)\<close>; the attribute converter turns \<open>d\<close> into a persistent map.\<close>

definition TypeChecker_new :: "'u heap \<Rightarrow> (string \<times> 'u pyfunction) list \<Rightarrow> 'u heap \<times> addr" where
  "TypeChecker_new h items = alloc h \<lparr>type_checkers = dict items\<rparr>"

subsection \<open>The methods of TypeChecker\<close>

definition is_type :: "('u \<Rightarrow> 'u TypeChecker \<Rightarrow> pyval \<Rightarrow> bool) \<Rightarrow> 'u heap \<Rightarrow> addr \<Rightarrow>
    pyval \<Rightarrow> string \<Rightarrow> exn + bool" where
  "is_type user h self instance type =
     (case pmap_getitem (type_checkers (h ! self)) type of
        Inl (KeyError k) \<Rightarrow> Inl (UndefinedTypeCheck type)
      | Inl e \<Rightarrow> Inl e
      | Inr fn \<Rightarrow> Inr (call user fn (h ! self) instance))"

definition redefine_many :: "'u heap \<Rightarrow> addr \<Rightarrow> (string \<times> 'u pyfunction) list \<Rightarrow> 'u heap \<times> addr" where
  "redefine_many h self definitions =
     (let definitions = dict definitions;
          type_checkers = pmap_update (type_checkers (h ! self)) definitions
      in evolve h self type_checkers)"

definition redefine :: "'u heap \<Rightarrow> addr \<Rightarrow> string \<Rightarrow> 'u pyfunction \<Rightarrow> 'u heap \<times> addr" where
  "redefine h self type fn = redefine_many h self [(type, fn)]"

text \<open>
  The loop of \<^verbatim>\<open>remove_many\<close> over the names, threading the evolver: the first
  deletion that raises \<^verbatim>\<open>KeyError\<close> ends it with \<^verbatim>\<open>UndefinedTypeCheck\<close> of that name.
\<close>

fun remove_loop :: "'v pmap \<Rightarrow> string list \<Rightarrow> exn + 'v pmap" where
  "remove_loop evolver [] = Inr evolver"
| "remove_loop evolver (type # types) =
     (case evolver_delitem evolver type of
        Inl (KeyError k) \<Rightarrow> Inl (UndefinedTypeCheck type)
      | Inl e \<Rightarrow> Inl e
      | Inr evolver' \<Rightarrow> remove_loop evolver' types)"

definition remove_many :: "'u heap \<Rightarrow> addr \<Rightarrow> string list \<Rightarrow> 'u heap \<times> (exn + addr)" where
  "remove_many h self types =
     (let evolver = type_checkers (h ! self)
      in case remove_loop evolver types of
           Inl e \<Rightarrow> (h, Inl e)
         | Inr evolver' \<Rightarrow> (let (h', new) = evolve h self evolver' in (h', Inr new)))"

text \<open>\<^verbatim>\<open>remove\<close> of the source (the name is taken by a constant of sets).\<close>

definition remove_tc :: "'u heap \<Rightarrow> addr \<Rightarrow> string \<Rightarrow> 'u heap \<times> (exn + addr)" where
  "remove_tc h self type = remove_many h self [type]"

subsection \<open>The two module-level checkers\<close>

record 'u module =
  heap :: "'u heap"
  draft3_type_checker :: addr
  draft4_type_checker :: addr

definition draft3_items :: "(string \<times> 'u pyfunction) list" where
  "draft3_items =
     [(''any'', Is_any), (''array'', Is_array), (''boolean'', Is_bool),
      (''integer'', Is_integer), (''object'', Is_object), (''null'', Is_null),
      (''number'', Is_number), (''string'', Is_string)]"

text \<open>
  Importing the module runs its two assignments from the empty store; an exception
  raised by the second would abort the import.
\<close>

definition import_module :: "exn + 'u module" where
  "import_module =
     (let (h1, d3) = TypeChecker_new [] draft3_items
      in case remove_tc h1 d3 ''any'' of
           (h2, Inl e) \<Rightarrow> Inl e
         | (h2, Inr d4) \<Rightarrow>
             Inr \<lparr>heap = h2, draft3_type_checker = d3, draft4_type_checker = d4\<rparr>)"

subsection \<open>Example stores and caller-supplied functions\<close>

text \<open>An interpretation for stores that hold no caller-supplied function.\<close>

definition no_user :: "unit \<Rightarrow> unit TypeChecker \<Rightarrow> pyval \<Rightarrow> bool" where
  "no_user u checker instance = False"

text \<open>
  A caller-supplied predicate that consults the checker it is called with, as the
  contract allows:
  \<^verbatim>\<open>lambda checker, instance: checker._type_checkers.get(u"foo") is is_any\<close>.
  It answers on every checker and never raises: \<^verbatim>\<open>get\<close> returns \<^verbatim>\<open>None\<close> for a
  missing key, and \<^verbatim>\<open>is\<close> compares the function object found with the module's
  \<^verbatim>\<open>is_any\<close>.
\<close>

definition foo_is_is_any :: "unit \<Rightarrow> unit TypeChecker \<Rightarrow> pyval \<Rightarrow> bool" where
  "foo_is_is_any u checker instance = (type_checkers checker ''foo'' = Some Is_any)"

text \<open>The store right after \<^verbatim>\<open>draft3_type_checker\<close> has been created, at address 0.\<close>

definition draft3_heap :: "unit heap" where
  "draft3_heap = fst (TypeChecker_new [] draft3_items)"

text \<open>A store with one checker that knows "a" and "b".\<close>

definition ab_heap :: "unit heap" where
  "ab_heap = fst (TypeChecker_new [] [(''a'', Is_any), (''b'', Is_null)])"

text \<open>A store with one checker whose "bar" entry is the caller's function above.\<close>

definition foo_bar_heap :: "unit heap" where
  "foo_bar_heap = fst (TypeChecker_new [] [(''foo'', Is_null), (''bar'', User ())])"

section \<open>Auxiliary facts\<close>

lemma dict_map_of: "dict pairs = map_of (rev pairs)"
proof -
  have "foldl (\<lambda>m (k, v). m(k \<mapsto> v)) m0 pairs = m0 ++ map_of (rev pairs)" for m0 :: "string \<rightharpoonup> 'a"
    by (induction pairs arbitrary: m0) (auto simp: map_add_upd_left)
  then show ?thesis by (simp add: dict_def)
qed

lemma dom_dict: "dom (dict pairs) = fst ` set pairs"
  by (simp add: dict_map_of dom_map_of_conv_image_fst)

lemma dict_distinct: "distinct (map fst pairs) \<Longrightarrow> (k, v) \<in> set pairs \<Longrightarrow> dict pairs k = Some v"
  by (simp add: dict_map_of distinct_rev rev_map [symmetric] del: rev_map)

lemma dict_singleton: "dict [(k, v)] = [k \<mapsto> v]"
  by (simp add: dict_def)

lemma remove_loop_Inr:
  "remove_loop ev ts = Inr ev' \<longleftrightarrow> distinct ts \<and> set ts \<subseteq> dom ev \<and> ev' = ev |` (- set ts)"
proof (induction ts arbitrary: ev)
  case Nil
  then show ?case by (auto simp: restrict_map_def)
next
  case (Cons t ts)
  show ?case
  proof (cases "ev t")
    case None
    then show ?thesis by (auto simp: evolver_delitem_def)
  next
    case (Some f)
    have eq: "(ev(t := None)) |` (- set ts) = ev |` (- set (t # ts))"
      by (auto simp: restrict_map_def fun_eq_iff)
    have step: "remove_loop ev (t # ts) = remove_loop (ev(t := None)) ts"
      using Some by (simp add: evolver_delitem_def)
    have dom: "set ts \<subseteq> dom (ev(t := None)) \<longleftrightarrow> t \<notin> set ts \<and> set ts \<subseteq> dom ev"
      by auto
    have "remove_loop ev (t # ts) = Inr ev' \<longleftrightarrow>
        distinct ts \<and> set ts \<subseteq> dom (ev(t := None)) \<and> ev' = ev |` (- set (t # ts))"
      unfolding step Cons.IH eq ..
    also have "\<dots> \<longleftrightarrow> distinct (t # ts) \<and> set (t # ts) \<subseteq> dom ev \<and> ev' = ev |` (- set (t # ts))"
      unfolding dom using Some by auto
    finally show ?thesis .
  qed
qed

lemma remove_loop_Inl:
  "remove_loop ev ts = Inl e \<Longrightarrow>
     \<exists>pre t post. ts = pre @ t # post \<and> distinct pre \<and> set pre \<subseteq> dom ev \<and>
        (ev t = None \<or> t \<in> set pre) \<and> e = UndefinedTypeCheck t"
proof (induction ts arbitrary: ev)
  case Nil
  then show ?case by simp
next
  case (Cons t ts)
  show ?case
  proof (cases "ev t")
    case None
    with Cons.prems have "e = UndefinedTypeCheck t" by (simp add: evolver_delitem_def)
    with None have "t # ts = [] @ t # ts \<and> distinct [] \<and> set [] \<subseteq> dom ev \<and>
        (ev t = None \<or> t \<in> set []) \<and> e = UndefinedTypeCheck t" by simp
    then show ?thesis by blast
  next
    case (Some f)
    with Cons.prems have "remove_loop (ev(t := None)) ts = Inl e" by (simp add: evolver_delitem_def)
    from Cons.IH [OF this] obtain pre t' post where
      ts: "ts = pre @ t' # post" and d: "distinct pre" and s: "set pre \<subseteq> dom (ev(t := None))"
      and a: "(ev(t := None)) t' = None \<or> t' \<in> set pre" and e: "e = UndefinedTypeCheck t'"
      by blast
    from s have tn: "t \<notin> set pre" by auto
    from s have s': "set (t # pre) \<subseteq> dom ev" using Some by (auto split: if_splits)
    from a have a': "ev t' = None \<or> t' \<in> set (t # pre)" by (auto split: if_splits)
    have "t # ts = (t # pre) @ t' # post" using ts by simp
    with d tn s' a' e show ?thesis by (metis distinct.simps(2))
  qed
qed

lemma remove_loop_fails:
  "\<not> (distinct ts \<and> set ts \<subseteq> dom ev) \<Longrightarrow> \<exists>e. remove_loop ev ts = Inl e"
  using remove_loop_Inr [of ev ts] by (cases "remove_loop ev ts") auto

lemma is_type_cases:
  "is_type user h self v t =
     (case type_checkers (h ! self) t of
        None \<Rightarrow> Inl (UndefinedTypeCheck t)
      | Some fn \<Rightarrow> Inr (call user fn (h ! self) v))"
  by (simp add: is_type_def pmap_getitem_def split: option.splits)

lemma redefine_many_eq:
  "redefine_many h self defs =
     (h @ [(h ! self)\<lparr>type_checkers := type_checkers (h ! self) ++ dict defs\<rparr>], length h)"
  by (simp add: redefine_many_def evolve_def alloc_def pmap_update_def)

lemma redefine_eq:
  "redefine h self t f =
     (h @ [(h ! self)\<lparr>type_checkers := (type_checkers (h ! self))(t \<mapsto> f)\<rparr>], length h)"
  by (simp add: redefine_def redefine_many_eq dict_singleton)

lemma remove_many_cases:
  "remove_many h self ts =
     (case remove_loop (type_checkers (h ! self)) ts of
        Inl e \<Rightarrow> (h, Inl e)
      | Inr ev \<Rightarrow> (h @ [(h ! self)\<lparr>type_checkers := ev\<rparr>], Inr (length h)))"
  by (simp add: remove_many_def evolve_def alloc_def split: sum.splits)

lemma remove_many_frame: "a < length h \<Longrightarrow> fst (remove_many h self ts) ! a = h ! a"
  by (simp add: remove_many_cases nth_append split: sum.splits)

lemma call_builtin_any_checker:
  "(\<And>u. fn \<noteq> User u) \<Longrightarrow> call user fn c v = call user fn c' v"
  by (cases fn)
    (auto simp: is_array_def is_bool_def is_integer_def is_null_def is_number_def
      is_object_def is_string_def is_any_def)

lemma import_module_eq:
  "import_module =
     Inr \<lparr>heap = [\<lparr>type_checkers = dict draft3_items\<rparr>,
                 \<lparr>type_checkers = (dict draft3_items)(''any'' := None)\<rparr>],
          draft3_type_checker = 0, draft4_type_checker = 1\<rparr>"
  by (simp add: import_module_def TypeChecker_new_def alloc_def remove_tc_def remove_many_def
      evolve_def evolver_delitem_def dict_def draft3_items_def)

lemma draft3_no_user: "dict draft3_items t \<noteq> Some (User u)"
  by (simp add: dict_def draft3_items_def)

lemma is_type_same_cell:
  assumes "h' ! a' = h ! a"
  shows "is_type user h' a' v t = is_type user h a v t"
  unfolding is_type_def assms ..

lemma remove_loop_append:
  "distinct xs \<Longrightarrow> set xs \<subseteq> dom ev \<Longrightarrow>
     remove_loop ev (xs @ ys) = remove_loop (ev |` (- set xs)) ys"
proof (induction xs arbitrary: ev)
  case Nil
  then show ?case by (simp add: restrict_map_def)
next
  case (Cons x xs)
  from Cons.prems obtain f where f: "ev x = Some f" by auto
  have eq: "(ev(x := None)) |` (- set xs) = ev |` (- set (x # xs))"
    by (auto simp: restrict_map_def fun_eq_iff)
  from Cons.prems have "distinct xs" and "set xs \<subseteq> dom (ev(x := None))" by auto
  from Cons.IH [OF this]
  have ih: "remove_loop (ev(x := None)) (xs @ ys) = remove_loop (ev |` (- set (x # xs))) ys"
    unfolding eq .
  have "remove_loop ev ((x # xs) @ ys) = remove_loop (ev(x := None)) (xs @ ys)"
    using f by (simp add: evolver_delitem_def)
  with ih show ?case by (simp only:)
qed

lemma count_list_gt1_not_distinct: "1 < count_list ts t \<Longrightarrow> \<not> distinct ts"
proof (induction ts)
  case Nil
  then show ?case by simp
next
  case (Cons x xs)
  show ?case
  proof (cases "x = t")
    case True
    with Cons.prems have "0 < count_list xs t" by simp
    then have "t \<in> set xs" using count_list_0_iff [of xs t] by auto
    with True show ?thesis by simp
  next
    case False
    with Cons show ?thesis by simp
  qed
qed

lemma count_list_distinct_le_1: "distinct xs \<Longrightarrow> count_list xs x \<le> 1"
  by (induction xs) auto

lemma draft3_array: "dict draft3_items ''array'' = Some Is_array"
  by (simp add: dict_def draft3_items_def)

lemma draft3_any: "dict draft3_items ''any'' = Some Is_any"
  by (simp add: dict_def draft3_items_def)

lemma is_array_iff: "is_array c v \<longleftrightarrow> (\<exists>xs. v = PyList xs)"
  by (cases v) (simp_all add: is_array_def isinstance_def)

lemma draft4_same_as_draft3:
  fixes user :: "'u \<Rightarrow> 'u TypeChecker \<Rightarrow> pyval \<Rightarrow> bool"
  assumes "t \<noteq> ''any''"
  shows "is_type user [\<lparr>type_checkers = dict draft3_items\<rparr>,
                       \<lparr>type_checkers = (dict draft3_items)(''any'' := None)\<rparr>] 1 v t
       = is_type user [\<lparr>type_checkers = dict draft3_items\<rparr>,
                       \<lparr>type_checkers = (dict draft3_items)(''any'' := None)\<rparr>] 0 v t"
proof (cases "dict draft3_items t :: 'u pyfunction option")
  case None
  with assms show ?thesis by (simp add: is_type_cases)
next
  case (Some fn)
  have "fn \<noteq> User u" for u
    using draft3_no_user [of t u] Some by simp
  then have "call user fn \<lparr>type_checkers = (dict draft3_items)(''any'' := None)\<rparr> v
      = call user fn \<lparr>type_checkers = dict draft3_items\<rparr> v"
    by (rule call_builtin_any_checker)
  with assms Some show ?thesis by (simp add: is_type_cases)
qed

lemma redefine_many_lookup:
  assumes "redefine_many h r defs = (h', r')"
  shows "type_checkers (h' ! r') t =
    (case dict defs t of None \<Rightarrow> type_checkers (h ! r) t | Some f \<Rightarrow> Some f)"
proof -
  from assms have "h' ! r' = (h ! r)\<lparr>type_checkers := type_checkers (h ! r) ++ dict defs\<rparr>"
    by (auto simp: redefine_many_eq)
  then show ?thesis by (simp add: map_add_def)
qed

lemma dict_None_iff: "dict defs t = None \<longleftrightarrow> t \<notin> fst ` set defs"
proof -
  have "t \<in> dom (dict defs) \<longleftrightarrow> dict defs t \<noteq> None" by (rule domIff)
  then show ?thesis unfolding dom_dict by blast
qed

section \<open>The claims\<close>

text \<open>
  Claim C2. \<^verbatim>\<open>is_type(value, type_name)\<close> raises \<^verbatim>\<open>UndefinedTypeCheck(type_name)\<close>
  exactly when \<open>type_name\<close> is absent from the checker's mapping; any exception it
  raises is that one (the \<^verbatim>\<open>KeyError\<close> of the lookup never escapes); and when the name
  is present the result is the mapped function called with this checker and the value.
  Caller-supplied functions are total here, as their contract requires.
\<close>

theorem is_type_undefined_iff_absent:
  "(is_type user h self v t = Inl (UndefinedTypeCheck t) \<longleftrightarrow> type_checkers (h ! self) t = None)
   \<and> (\<forall>e. is_type user h self v t = Inl e \<longrightarrow>
          e = UndefinedTypeCheck t \<and> type_checkers (h ! self) t = None)
   \<and> (\<forall>fn. type_checkers (h ! self) t = Some fn \<longrightarrow>
          is_type user h self v t = Inr (call user fn (h ! self) v))"
  by (auto simp: is_type_cases split: option.splits)

theorem is_type_undefined_iff_absent_witness:
  "dict draft3_items ''integer'' = Some (Is_integer :: unit pyfunction)
   \<and> is_type no_user draft3_heap 0 (PyInt 3) ''integer'' = Inr True
   \<and> is_type no_user draft3_heap 0 (PyInt 3) ''date'' = Inl (UndefinedTypeCheck ''date'')"
proof -
  have m: "type_checkers (draft3_heap ! 0) = dict draft3_items"
    by (simp add: draft3_heap_def TypeChecker_new_def alloc_def)
  have p: "dict draft3_items ''integer'' = Some (Is_integer :: unit pyfunction)"
    by (simp add: dict_def draft3_items_def)
  have a: "dict draft3_items ''date'' = (None :: unit pyfunction option)"
    by (simp add: dict_def draft3_items_def)
  have c: "call no_user Is_integer (draft3_heap ! 0) (PyInt 3)"
    by (simp add: is_integer_def isinstance_def isinstance_any_def int_types_def)
  note t1 = is_type_undefined_iff_absent [of no_user draft3_heap 0 "PyInt 3" "''integer''"]
  note t2 = is_type_undefined_iff_absent [of no_user draft3_heap 0 "PyInt 3" "''date''"]
  have "is_type no_user draft3_heap 0 (PyInt 3) ''integer'' =
      Inr (call no_user Is_integer (draft3_heap ! 0) (PyInt 3))"
    by (rule t1 [THEN conjunct2, THEN conjunct2, rule_format]) (simp only: m p)
  with c have 1: "is_type no_user draft3_heap 0 (PyInt 3) ''integer'' = Inr True"
    by (simp only: eqTrueI)
  have 2: "is_type no_user draft3_heap 0 (PyInt 3) ''date'' = Inl (UndefinedTypeCheck ''date'')"
    by (rule t2 [THEN conjunct1, THEN iffD2]) (simp only: m a)
  from p 1 2 show ?thesis by (intro conjI)
qed

text \<open>
  Claim C3. On every checker that binds "integer", "number" and "boolean" to the
  module's predicates, every integer \<open>n\<close> (not a boolean) is an "integer" and a
  "number", and every boolean \<open>b\<close> is neither an "integer" nor a "number" but is a
  "boolean", although \<^verbatim>\<open>bool\<close> is a subclass of \<^verbatim>\<open>int\<close>.
\<close>

theorem builtin_integer_number_boolean:
  assumes "type_checkers (h ! self) ''integer'' = Some Is_integer"
    and "type_checkers (h ! self) ''number'' = Some Is_number"
    and "type_checkers (h ! self) ''boolean'' = Some Is_bool"
  shows "is_type user h self (PyInt n) ''integer'' = Inr True
       \<and> is_type user h self (PyInt n) ''number'' = Inr True
       \<and> is_type user h self (PyBool b) ''integer'' = Inr False
       \<and> is_type user h self (PyBool b) ''number'' = Inr False
       \<and> is_type user h self (PyBool b) ''boolean'' = Inr True"
  using assms
  by (simp add: is_type_cases is_integer_def is_number_def is_bool_def isinstance_def
      isinstance_any_def int_types_def)

theorem builtin_integer_number_boolean_witness:
  "is_type no_user draft3_heap 0 (PyInt 7) ''integer'' = Inr True
   \<and> is_type no_user draft3_heap 0 (PyInt 7) ''number'' = Inr True
   \<and> is_type no_user draft3_heap 0 (PyBool True) ''integer'' = Inr False
   \<and> is_type no_user draft3_heap 0 (PyBool True) ''number'' = Inr False
   \<and> is_type no_user draft3_heap 0 (PyBool True) ''boolean'' = Inr True"
proof -
  have m: "type_checkers (draft3_heap ! 0) = dict draft3_items"
    by (simp add: draft3_heap_def TypeChecker_new_def alloc_def)
  have 1: "type_checkers (draft3_heap ! 0) ''integer'' = Some Is_integer"
    and 2: "type_checkers (draft3_heap ! 0) ''number'' = Some Is_number"
    and 3: "type_checkers (draft3_heap ! 0) ''boolean'' = Some Is_bool"
    unfolding m by (simp_all add: dict_def draft3_items_def)
  show ?thesis by (rule builtin_integer_number_boolean [OF 1 2 3])
qed

text \<open>
  Claim C4. Every update operation leaves its receiver unchanged. After
  \<^verbatim>\<open>r2 = r1.redefine(name, f)\<close> the cell of \<open>r1\<close> is what it was, so
  \<^verbatim>\<open>r1.is_type(v, name)\<close> gives the result of the original function (or still raises
  \<^verbatim>\<open>UndefinedTypeCheck\<close> when the name was absent); \<open>r2\<close> is another object, and it is
  the one that calls \<open>f\<close>. The same holds for the receiver's cell after
  \<^verbatim>\<open>redefine_many\<close>, \<^verbatim>\<open>remove\<close> and \<^verbatim>\<open>remove_many\<close>, whether they
  return or raise.
\<close>

theorem updates_leave_receiver_unchanged:
  assumes "r1 < length h"
  shows "(redefine h r1 name f = (h', r2) \<longrightarrow>
            h' ! r1 = h ! r1 \<and> r2 \<noteq> r1
          \<and> is_type user h' r1 v name = is_type user h r1 v name
          \<and> (type_checkers (h ! r1) name = None \<longrightarrow>
               is_type user h' r1 v name = Inl (UndefinedTypeCheck name))
          \<and> (\<forall>f0. type_checkers (h ! r1) name = Some f0 \<longrightarrow>
               is_type user h' r1 v name = Inr (call user f0 (h ! r1) v))
          \<and> is_type user h' r2 v name = Inr (call user f (h' ! r2) v))
       \<and> fst (redefine h r1 name f) ! r1 = h ! r1
       \<and> fst (redefine_many h r1 defs) ! r1 = h ! r1
       \<and> fst (remove_tc h r1 name) ! r1 = h ! r1
       \<and> fst (remove_many h r1 names) ! r1 = h ! r1"
proof -
  have a: "fst (redefine h r1 name f) ! r1 = h ! r1"
    using assms by (simp add: redefine_eq nth_append)
  have b: "fst (redefine_many h r1 defs) ! r1 = h ! r1"
    using assms by (simp add: redefine_many_eq nth_append)
  have c: "fst (remove_tc h r1 name) ! r1 = h ! r1"
    unfolding remove_tc_def using assms by (rule remove_many_frame)
  have d: "fst (remove_many h r1 names) ! r1 = h ! r1"
    using assms by (rule remove_many_frame)
  have e: "redefine h r1 name f = (h', r2) \<longrightarrow>
            h' ! r1 = h ! r1 \<and> r2 \<noteq> r1
          \<and> is_type user h' r1 v name = is_type user h r1 v name
          \<and> (type_checkers (h ! r1) name = None \<longrightarrow>
               is_type user h' r1 v name = Inl (UndefinedTypeCheck name))
          \<and> (\<forall>f0. type_checkers (h ! r1) name = Some f0 \<longrightarrow>
               is_type user h' r1 v name = Inr (call user f0 (h ! r1) v))
          \<and> is_type user h' r2 v name = Inr (call user f (h' ! r2) v)"
  proof
    assume eq: "redefine h r1 name f = (h', r2)"
    then have h': "h' = h @ [(h ! r1)\<lparr>type_checkers := (type_checkers (h ! r1))(name \<mapsto> f)\<rparr>]"
      and r2: "r2 = length h"
      by (simp_all add: redefine_eq)
    have old: "h' ! r1 = h ! r1" using assms by (simp add: h' nth_append)
    have new: "type_checkers (h' ! r2) name = Some f" by (simp add: h' r2)
    have same: "is_type user h' r1 v name = is_type user h r1 v name"
      using old by (rule is_type_same_cell)
    have absent: "type_checkers (h ! r1) name = None \<longrightarrow>
               is_type user h' r1 v name = Inl (UndefinedTypeCheck name)"
      unfolding same by (simp add: is_type_cases)
    have present: "\<forall>f0. type_checkers (h ! r1) name = Some f0 \<longrightarrow>
               is_type user h' r1 v name = Inr (call user f0 (h ! r1) v)"
      unfolding same by (simp add: is_type_cases)
    have derived: "is_type user h' r2 v name = Inr (call user f (h' ! r2) v)"
      using new by (simp add: is_type_cases)
    have ne: "r2 \<noteq> r1" using assms by (simp add: r2)
    from old ne same absent present derived
    show "h' ! r1 = h ! r1 \<and> r2 \<noteq> r1
          \<and> is_type user h' r1 v name = is_type user h r1 v name
          \<and> (type_checkers (h ! r1) name = None \<longrightarrow>
               is_type user h' r1 v name = Inl (UndefinedTypeCheck name))
          \<and> (\<forall>f0. type_checkers (h ! r1) name = Some f0 \<longrightarrow>
               is_type user h' r1 v name = Inr (call user f0 (h ! r1) v))
          \<and> is_type user h' r2 v name = Inr (call user f (h' ! r2) v)"
      by (intro conjI)
  qed
  from e a b c d show ?thesis by (intro conjI)
qed


theorem updates_leave_receiver_unchanged_witness:
  "is_type no_user (fst (redefine draft3_heap 0 ''string'' Is_any)) 0 (PyInt 3) ''string'' = Inr False
   \<and> is_type no_user (fst (redefine draft3_heap 0 ''string'' Is_any))
        (snd (redefine draft3_heap 0 ''string'' Is_any)) (PyInt 3) ''string'' = Inr True
   \<and> fst (remove_tc draft3_heap 0 ''string'') ! 0 = draft3_heap ! 0"
proof -
  have len: "0 < length draft3_heap"
    by (simp add: draft3_heap_def TypeChecker_new_def alloc_def)
  have m: "type_checkers (draft3_heap ! 0) = dict draft3_items"
    by (simp add: draft3_heap_def TypeChecker_new_def alloc_def)
  have s: "type_checkers (draft3_heap ! 0) ''string'' = Some Is_string"
    unfolding m by (simp add: dict_def draft3_items_def)
  note t = updates_leave_receiver_unchanged [OF len, of "''string''" Is_any
      "fst (redefine draft3_heap 0 ''string'' Is_any)"
      "snd (redefine draft3_heap 0 ''string'' Is_any)" no_user "PyInt 3"]
  note t1 = t [THEN conjunct1, rule_format, OF prod.collapse [symmetric]]
  have 1: "is_type no_user (fst (redefine draft3_heap 0 ''string'' Is_any)) 0 (PyInt 3) ''string''
      = Inr (call no_user Is_string (draft3_heap ! 0) (PyInt 3))"
    by (rule t1 [THEN conjunct2, THEN conjunct2, THEN conjunct2, THEN conjunct2, THEN conjunct1,
          rule_format, OF s])
  have 2: "is_type no_user (fst (redefine draft3_heap 0 ''string'' Is_any))
        (snd (redefine draft3_heap 0 ''string'' Is_any)) (PyInt 3) ''string''
      = Inr (call no_user Is_any (fst (redefine draft3_heap 0 ''string'' Is_any) !
           snd (redefine draft3_heap 0 ''string'' Is_any)) (PyInt 3))"
    by (rule t1 [THEN conjunct2, THEN conjunct2, THEN conjunct2, THEN conjunct2, THEN conjunct2])
  have 3: "fst (remove_tc draft3_heap 0 ''string'') ! 0 = draft3_heap ! 0"
    by (rule t [THEN conjunct2, THEN conjunct2, THEN conjunct2, THEN conjunct1])
  have c1: "call no_user Is_string (draft3_heap ! 0) (PyInt 3) = False"
    by (simp add: is_string_def isinstance_any_def isinstance_def str_types_def)
  have c2: "call no_user Is_any c (PyInt 3) = True" for c
    by (simp add: is_any_def)
  from 1 2 3 show ?thesis unfolding c1 c2 by (intro conjI)
qed

text \<open>
  Claim C6, as amended. \<^verbatim>\<open>redefine_many(d)\<close> returns a checker that binds every name of
  \<open>d\<close> to the function supplied for it (the last one, should a sequence of pairs repeat a
  name) and binds every other name as the receiver does. So for a name \<open>t\<close> outside
  \<open>d\<close>: where the receiver has no entry for \<open>t\<close>, \<^verbatim>\<open>is_type(v, t)\<close> raises
  \<^verbatim>\<open>UndefinedTypeCheck(t)\<close> on the derived checker as on the receiver; where the receiver
  binds \<open>t\<close> to a function, the derived checker calls that same function, passing itself
  as the checker. For a function that does not fail, as its contract requires,
  \<^verbatim>\<open>is_type(v, t)\<close> then has the same result on both whenever the function returns the
  same boolean on the two checkers, as every module-level predicate does. Nothing is said
  of a function that raises.
\<close>

theorem redefine_many_preserves_others:
  assumes "redefine_many h r defs = (h', r')"
  shows "(\<forall>t f. dict defs t = Some f \<longrightarrow> type_checkers (h' ! r') t = Some f)
       \<and> (distinct (map fst defs) \<longrightarrow>
            (\<forall>t f. (t, f) \<in> set defs \<longrightarrow> type_checkers (h' ! r') t = Some f))
       \<and> (\<forall>t. t \<notin> fst ` set defs \<longrightarrow> type_checkers (h' ! r') t = type_checkers (h ! r) t)
       \<and> (\<forall>t v. t \<notin> fst ` set defs \<longrightarrow> type_checkers (h ! r) t = None \<longrightarrow>
            is_type user h' r' v t = Inl (UndefinedTypeCheck t)
            \<and> is_type user h r v t = Inl (UndefinedTypeCheck t))
       \<and> (\<forall>t v fn. t \<notin> fst ` set defs \<longrightarrow> type_checkers (h ! r) t = Some fn \<longrightarrow>
            is_type user h' r' v t = Inr (call user fn (h' ! r') v)
            \<and> is_type user h r v t = Inr (call user fn (h ! r) v))
       \<and> (\<forall>t v. t \<notin> fst ` set defs \<longrightarrow>
            (\<forall>fn. type_checkers (h ! r) t = Some fn \<longrightarrow>
                  call user fn (h' ! r') v = call user fn (h ! r) v) \<longrightarrow>
            is_type user h' r' v t = is_type user h r v t)
       \<and> (\<forall>t v. t \<notin> fst ` set defs \<longrightarrow>
            (\<forall>u. type_checkers (h ! r) t \<noteq> Some (User u)) \<longrightarrow>
            is_type user h' r' v t = is_type user h r v t)"
proof -
  note look = redefine_many_lookup [OF assms]
  have 1: "\<forall>t f. dict defs t = Some f \<longrightarrow> type_checkers (h' ! r') t = Some f"
    by (simp add: look)
  have 2: "distinct (map fst defs) \<longrightarrow>
            (\<forall>t f. (t, f) \<in> set defs \<longrightarrow> type_checkers (h' ! r') t = Some f)"
    by (simp add: look dict_distinct)
  have same: "type_checkers (h' ! r') t = type_checkers (h ! r) t" if "t \<notin> fst ` set defs" for t
    using that by (simp add: look dict_None_iff [symmetric])
  have 3: "\<forall>t. t \<notin> fst ` set defs \<longrightarrow> type_checkers (h' ! r') t = type_checkers (h ! r) t"
    using same by simp
  have 4: "\<forall>t v. t \<notin> fst ` set defs \<longrightarrow> type_checkers (h ! r) t = None \<longrightarrow>
            is_type user h' r' v t = Inl (UndefinedTypeCheck t)
            \<and> is_type user h r v t = Inl (UndefinedTypeCheck t)"
    by (simp add: is_type_cases same)
  have 7: "\<forall>t v fn. t \<notin> fst ` set defs \<longrightarrow> type_checkers (h ! r) t = Some fn \<longrightarrow>
            is_type user h' r' v t = Inr (call user fn (h' ! r') v)
            \<and> is_type user h r v t = Inr (call user fn (h ! r) v)"
    by (simp add: is_type_cases same)
  have agree: "is_type user h' r' v t = is_type user h r v t"
    if t: "t \<notin> fst ` set defs"
      and c: "\<forall>fn. type_checkers (h ! r) t = Some fn \<longrightarrow>
                  call user fn (h' ! r') v = call user fn (h ! r) v"
    for t v
  proof (cases "type_checkers (h ! r) t")
    case None
    then show ?thesis by (simp add: is_type_cases same [OF t])
  next
    case (Some fn)
    with c have "call user fn (h' ! r') v = call user fn (h ! r) v" by simp
    with Some show ?thesis by (simp add: is_type_cases same [OF t])
  qed
  have 5: "\<forall>t v. t \<notin> fst ` set defs \<longrightarrow>
            (\<forall>fn. type_checkers (h ! r) t = Some fn \<longrightarrow>
                  call user fn (h' ! r') v = call user fn (h ! r) v) \<longrightarrow>
            is_type user h' r' v t = is_type user h r v t"
    using agree by blast
  have 6: "\<forall>t v. t \<notin> fst ` set defs \<longrightarrow>
            (\<forall>u. type_checkers (h ! r) t \<noteq> Some (User u)) \<longrightarrow>
            is_type user h' r' v t = is_type user h r v t"
  proof (intro allI impI)
    fix t v
    assume t: "t \<notin> fst ` set defs" and nu: "\<forall>u. type_checkers (h ! r) t \<noteq> Some (User u)"
    have "\<forall>fn. type_checkers (h ! r) t = Some fn \<longrightarrow>
                  call user fn (h' ! r') v = call user fn (h ! r) v"
    proof (intro allI impI)
      fix fn
      assume "type_checkers (h ! r) t = Some fn"
      with nu have "\<And>u. fn \<noteq> User u" by auto
      then show "call user fn (h' ! r') v = call user fn (h ! r) v"
        by (rule call_builtin_any_checker)
    qed
    with t show "is_type user h' r' v t = is_type user h r v t" by (rule agree)
  qed
  from 1 2 3 4 7 5 6 show ?thesis by (intro conjI)
qed

theorem redefine_many_preserves_others_witness:
  "type_checkers (fst (redefine_many draft3_heap 0 [(''date'', Is_string)]) !
       snd (redefine_many draft3_heap 0 [(''date'', Is_string)])) ''date'' = Some Is_string
   \<and> is_type no_user (fst (redefine_many draft3_heap 0 [(''date'', Is_string)]))
       (snd (redefine_many draft3_heap 0 [(''date'', Is_string)])) (PyInt 3) ''integer''
     = is_type no_user draft3_heap 0 (PyInt 3) ''integer''"
proof -
  note t = redefine_many_preserves_others [where h = draft3_heap and r = 0
      and defs = "[(''date'', Is_string)]" and user = no_user, OF prod.collapse [symmetric]]
  have d: "dict [(''date'', Is_string :: unit pyfunction)] ''date'' = Some Is_string"
    by (simp add: dict_def)
  have n: "''integer'' \<notin> fst ` set [(''date'', Is_string :: unit pyfunction)]" by simp
  have m: "type_checkers (draft3_heap ! 0) = dict draft3_items"
    by (simp add: draft3_heap_def TypeChecker_new_def alloc_def)
  have u: "\<forall>u. type_checkers (draft3_heap ! 0) ''integer'' \<noteq> Some (User u)"
    unfolding m by (simp add: draft3_no_user)
  have 1: "type_checkers (fst (redefine_many draft3_heap 0 [(''date'', Is_string)]) !
       snd (redefine_many draft3_heap 0 [(''date'', Is_string)])) ''date'' = Some Is_string"
    by (rule t [THEN conjunct1, rule_format, OF d])
  have 2: "is_type no_user (fst (redefine_many draft3_heap 0 [(''date'', Is_string)]))
       (snd (redefine_many draft3_heap 0 [(''date'', Is_string)])) (PyInt 3) ''integer''
     = is_type no_user draft3_heap 0 (PyInt 3) ''integer''"
    by (rule t [THEN conjunct2, THEN conjunct2, THEN conjunct2, THEN conjunct2, THEN conjunct2,
          THEN conjunct2, rule_format, OF n u [rule_format]])
  from 1 2 show ?thesis by (intro conjI)
qed

text \<open>
  Claim C6 as stated fails for a function that consults the checker it is called with.
  The receiver binds "foo" to \<^verbatim>\<open>is_null\<close> and "bar" to the caller's function
  \<^verbatim>\<open>lambda checker, instance: checker._type_checkers.get(u"foo") is is_any\<close>. After
  \<^verbatim>\<open>redefine_many({"foo": is_any})\<close> the entry "bar" is the same function, yet
  \<^verbatim>\<open>is_type(5, "bar")\<close> is false on the receiver and true on the derived checker.
\<close>

theorem redefine_many_changes_consulting_entry:
  "dict [(''foo'', Is_any :: unit pyfunction)] ''bar'' = None
   \<and> type_checkers (foo_bar_heap ! 0) ''bar'' = Some (User ())
   \<and> type_checkers (fst (redefine_many foo_bar_heap 0 [(''foo'', Is_any)]) !
        snd (redefine_many foo_bar_heap 0 [(''foo'', Is_any)])) ''bar'' = Some (User ())
   \<and> is_type foo_is_is_any foo_bar_heap 0 (PyInt 5) ''bar'' = Inr False
   \<and> is_type foo_is_is_any (fst (redefine_many foo_bar_heap 0 [(''foo'', Is_any)]))
        (snd (redefine_many foo_bar_heap 0 [(''foo'', Is_any)])) (PyInt 5) ''bar'' = Inr True"
  by (simp add: redefine_many_eq foo_bar_heap_def TypeChecker_new_def alloc_def dict_def
      is_type_cases foo_is_is_any_def)

text \<open>
  Claim C7. \<^verbatim>\<open>redefine(t, f)\<close> is \<^verbatim>\<open>redefine_many({t: f})\<close>: both return a new
  checker whose mapping is the receiver's with \<open>t\<close> bound to \<open>f\<close>, whether or not
  \<open>t\<close> was bound before; neither has an error result.
\<close>

theorem redefine_is_singleton_redefine_many:
  "redefine h r t f = redefine_many h r [(t, f)]
   \<and> type_checkers (fst (redefine h r t f) ! snd (redefine h r t f))
       = (type_checkers (h ! r))(t \<mapsto> f)
   \<and> type_checkers (fst (redefine_many h r [(t, f)]) ! snd (redefine_many h r [(t, f)]))
       = (type_checkers (h ! r))(t \<mapsto> f)"
  by (simp add: redefine_eq redefine_many_eq dict_singleton)

text \<open>
  Claim C9. \<^verbatim>\<open>redefine\<close> is idempotent: with \<open>r1 = r.redefine(t, f)\<close> and
  \<open>r2 = r1.redefine(t, f)\<close>, \<^verbatim>\<open>is_type(v, n)\<close> has the same outcome on \<open>r2\<close> and on
  \<open>r1\<close> for every value and every name (the same boolean or the same
  \<^verbatim>\<open>UndefinedTypeCheck\<close>); the two objects have the same content.
\<close>

theorem redefine_idempotent:
  assumes "redefine h r t f = (h1, r1)" and "redefine h1 r1 t f = (h2, r2)"
  shows "is_type user h2 r2 v n = is_type user h1 r1 v n
       \<and> is_type user h2 r2 v n = is_type user h2 r1 v n
       \<and> h2 ! r2 = h1 ! r1"
proof -
  from assms(1) have h1: "h1 = h @ [(h ! r)\<lparr>type_checkers := (type_checkers (h ! r))(t \<mapsto> f)\<rparr>]"
    and r1: "r1 = length h" by (simp_all add: redefine_eq)
  from assms(2) have h2: "h2 = h1 @ [(h1 ! r1)\<lparr>type_checkers := (type_checkers (h1 ! r1))(t \<mapsto> f)\<rparr>]"
    and r2: "r2 = length h1" by (simp_all add: redefine_eq)
  have a: "h1 ! r1 = (h ! r)\<lparr>type_checkers := (type_checkers (h ! r))(t \<mapsto> f)\<rparr>"
    by (simp add: h1 r1)
  have b: "h2 ! r2 = h1 ! r1" by (simp add: h2 r2 a)
  have "r1 < length h1" by (simp add: h1 r1)
  then have c: "h2 ! r1 = h1 ! r1" by (simp add: h2 nth_append)
  from b c have d: "h2 ! r2 = h2 ! r1" by simp
  from is_type_same_cell [OF b] is_type_same_cell [OF d] b
  show ?thesis by (intro conjI)
qed


theorem redefine_idempotent_witness:
  "is_type no_user
     (fst (redefine (fst (redefine draft3_heap 0 ''date'' Is_string)) 1 ''date'' Is_string)) 2
     (PyStr ''x'') ''date''
   = is_type no_user (fst (redefine draft3_heap 0 ''date'' Is_string)) 1 (PyStr ''x'') ''date''"
proof -
  have len: "length draft3_heap = 1"
    by (simp add: draft3_heap_def TypeChecker_new_def alloc_def)
  have 1: "redefine draft3_heap 0 ''date'' Is_string
      = (fst (redefine draft3_heap 0 ''date'' Is_string), 1)"
    by (simp add: redefine_eq len)
  have 2: "redefine (fst (redefine draft3_heap 0 ''date'' Is_string)) 1 ''date'' Is_string
      = (fst (redefine (fst (redefine draft3_heap 0 ''date'' Is_string)) 1 ''date'' Is_string), 2)"
    by (simp add: redefine_eq len)
  from redefine_idempotent [OF 1 2, of no_user "PyStr ''x''" "''date''"]
  show ?thesis by (rule conjunct1)
qed

text \<open>
  Claim C1, as amended. \<^verbatim>\<open>remove_many\<close> is all-or-nothing: if any name in \<open>ts\<close> is
  absent from the receiver's mapping, the call raises \<^verbatim>\<open>UndefinedTypeCheck\<close>, creates
  no checker and leaves the store, and with it the receiver, as it was. The name carried
  is the first one, in iteration order, whose deletion fails: every name before it is
  present and occurs once, and it is itself absent from the receiver's mapping or repeats
  an earlier name. When \<open>ts\<close> has no repeated name it is the first absent name.
\<close>

theorem remove_many_all_or_nothing:
  assumes "\<exists>t\<in>set ts. type_checkers (h ! r) t = None"
  shows "\<exists>pre t' post. ts = pre @ t' # post \<and> distinct pre
      \<and> (\<forall>x\<in>set pre. type_checkers (h ! r) x \<noteq> None)
      \<and> (type_checkers (h ! r) t' = None \<or> t' \<in> set pre)
      \<and> (distinct ts \<longrightarrow> type_checkers (h ! r) t' = None)
      \<and> remove_many h r ts = (h, Inl (UndefinedTypeCheck t'))
      \<and> (\<forall>v n. is_type user (fst (remove_many h r ts)) r v n = is_type user h r v n)"
proof -
  let ?ev = "type_checkers (h ! r)"
  from assms have "\<not> (distinct ts \<and> set ts \<subseteq> dom ?ev)" by auto
  from remove_loop_fails [OF this] obtain e where e: "remove_loop ?ev ts = Inl e" ..
  from remove_loop_Inl [OF e] obtain pre t' post where
    ts: "ts = pre @ t' # post" and d: "distinct pre" and s: "set pre \<subseteq> dom ?ev"
    and a: "?ev t' = None \<or> t' \<in> set pre" and e': "e = UndefinedTypeCheck t'"
    by blast
  have res: "remove_many h r ts = (h, Inl (UndefinedTypeCheck t'))"
    using e e' by (simp add: remove_many_cases)
  from s have p: "\<forall>x\<in>set pre. ?ev x \<noteq> None" by auto
  from a ts have n: "distinct ts \<longrightarrow> ?ev t' = None" by auto
  have fr: "\<forall>v n. is_type user (fst (remove_many h r ts)) r v n = is_type user h r v n"
    by (simp add: res)
  from ts d p a n res fr show ?thesis by blast
qed

theorem remove_many_all_or_nothing_witness:
  "remove_many ab_heap 0 [''a'', ''c''] = (ab_heap, Inl (UndefinedTypeCheck ''c''))"
proof -
  have m: "type_checkers (ab_heap ! 0) = dict [(''a'', Is_any), (''b'', Is_null)]"
    by (simp add: ab_heap_def TypeChecker_new_def alloc_def)
  have c: "type_checkers (ab_heap ! 0) ''c'' = None"
    and a: "type_checkers (ab_heap ! 0) ''a'' \<noteq> None"
    unfolding m by (simp_all add: dict_def)
  from c have "\<exists>t\<in>set [''a'', ''c'']. type_checkers (ab_heap ! 0) t = None" by simp
  from remove_many_all_or_nothing [OF this, of no_user] obtain pre t' post where
    ts: "[''a'', ''c''] = pre @ t' # post"
    and n: "distinct [''a'', ''c''] \<longrightarrow> type_checkers (ab_heap ! 0) t' = None"
    and res: "remove_many ab_heap 0 [''a'', ''c''] = (ab_heap, Inl (UndefinedTypeCheck t'))"
    by blast
  from n have absent: "type_checkers (ab_heap ! 0) t' = None" by simp
  have "t' \<in> set [''a'', ''c'']" by (subst ts) simp
  then have "t' = ''a'' \<or> t' = ''c''" by simp
  with absent a have "t' = ''c''" by auto
  with res show ?thesis by simp
qed

text \<open>
  Claim C1 as stated fails where a present name is repeated before the absent one: on a
  checker that knows "a" and "b", \<^verbatim>\<open>remove_many(["a", "a", "c"])\<close> raises
  \<^verbatim>\<open>UndefinedTypeCheck("a")\<close>, and "a" is present; the absent name "c" is not the one
  carried.
\<close>

theorem remove_many_carries_present_name:
  "type_checkers (ab_heap ! 0) ''c'' = None
   \<and> type_checkers (ab_heap ! 0) ''a'' = Some Is_any
   \<and> remove_many ab_heap 0 [''a'', ''a'', ''c''] = (ab_heap, Inl (UndefinedTypeCheck ''a''))"
  by (simp add: remove_many_def ab_heap_def TypeChecker_new_def alloc_def dict_def
      evolver_delitem_def)

text \<open>
  Claim C5. Importing the module succeeds, and \<^verbatim>\<open>draft4_type_checker\<close> is
  \<^verbatim>\<open>draft3_type_checker\<close> without "any": its mapping is that of draft3 with the entry
  removed, \<^verbatim>\<open>is_type(v, "any")\<close> raises \<^verbatim>\<open>UndefinedTypeCheck("any")\<close> on it for every
  value (and is true on draft3), and for every other name the two checkers give the same
  outcome on every value.
\<close>

theorem draft4_is_draft3_without_any:
  fixes user :: "'u \<Rightarrow> 'u TypeChecker \<Rightarrow> pyval \<Rightarrow> bool"
  shows "\<exists>m. import_module = Inr m
     \<and> type_checkers (heap m ! draft4_type_checker m)
         = (type_checkers (heap m ! draft3_type_checker m))(''any'' := None)
     \<and> (\<forall>v. is_type user (heap m) (draft4_type_checker m) v ''any''
            = Inl (UndefinedTypeCheck ''any''))
     \<and> (\<forall>v. is_type user (heap m) (draft3_type_checker m) v ''any'' = Inr True)
     \<and> (\<forall>v t. t \<noteq> ''any'' \<longrightarrow>
            is_type user (heap m) (draft4_type_checker m) v t
            = is_type user (heap m) (draft3_type_checker m) v t)"
proof (rule exI, intro conjI)
  show "import_module = Inr \<lparr>heap = [\<lparr>type_checkers = dict draft3_items\<rparr>,
                 \<lparr>type_checkers = (dict draft3_items)(''any'' := None)\<rparr>],
          draft3_type_checker = 0, draft4_type_checker = 1\<rparr>"
    by (rule import_module_eq)
next
  show "\<forall>v t. t \<noteq> ''any'' \<longrightarrow>
      is_type user (heap \<lparr>heap = [\<lparr>type_checkers = dict draft3_items\<rparr>,
                 \<lparr>type_checkers = (dict draft3_items)(''any'' := None)\<rparr>],
          draft3_type_checker = 0, draft4_type_checker = 1\<rparr>)
        (draft4_type_checker \<lparr>heap = [\<lparr>type_checkers = dict draft3_items\<rparr>,
                 \<lparr>type_checkers = (dict draft3_items)(''any'' := None)\<rparr>],
          draft3_type_checker = 0, draft4_type_checker = 1\<rparr>) v t
      = is_type user (heap \<lparr>heap = [\<lparr>type_checkers = dict draft3_items\<rparr>,
                 \<lparr>type_checkers = (dict draft3_items)(''any'' := None)\<rparr>],
          draft3_type_checker = 0, draft4_type_checker = 1\<rparr>)
        (draft3_type_checker \<lparr>heap = [\<lparr>type_checkers = dict draft3_items\<rparr>,
                 \<lparr>type_checkers = (dict draft3_items)(''any'' := None)\<rparr>],
          draft3_type_checker = 0, draft4_type_checker = 1\<rparr>) v t"
    unfolding module.simps using draft4_same_as_draft3 [of _ user] by blast
qed (simp_all add: is_type_cases draft3_any is_any_def)

theorem draft4_is_draft3_without_any_witness:
  "\<exists>m. (import_module :: exn + unit module) = Inr m
     \<and> is_type no_user (heap m) (draft4_type_checker m) (PyInt 3) ''any''
         = Inl (UndefinedTypeCheck ''any'')
     \<and> is_type no_user (heap m) (draft4_type_checker m) (PyInt 3) ''integer''
         = is_type no_user (heap m) (draft3_type_checker m) (PyInt 3) ''integer''"
proof -
  have ne: "''integer'' \<noteq> ''any''" by simp
  from draft4_is_draft3_without_any [of no_user] obtain m where
    m: "import_module = Inr m"
    and a: "\<forall>v. is_type no_user (heap m) (draft4_type_checker m) v ''any''
            = Inl (UndefinedTypeCheck ''any'')"
    and s: "\<forall>v t. t \<noteq> ''any'' \<longrightarrow>
            is_type no_user (heap m) (draft4_type_checker m) v t
            = is_type no_user (heap m) (draft3_type_checker m) v t"
    by (elim exE conjE)
  have e: "is_type no_user (heap m) (draft4_type_checker m) (PyInt 3) ''integer''
         = is_type no_user (heap m) (draft3_type_checker m) (PyInt 3) ''integer''"
    by (rule s [rule_format, OF ne])
  from a have a': "is_type no_user (heap m) (draft4_type_checker m) (PyInt 3) ''any''
         = Inl (UndefinedTypeCheck ''any'')" by (rule spec)
  from m a' e show ?thesis by (intro exI [of _ m] conjI)
qed

text \<open>
  Claim C8. On both module-level checkers \<^verbatim>\<open>is_type(v, "array")\<close> never raises and is
  true exactly when \<open>v\<close> is a list; it is false on every dictionary and every string.
  "Sequence container (list-like)" is read as an instance of \<^verbatim>\<open>list\<close>: the spec lists
  treating tuples as arrays among the customisations a caller may add.
\<close>

theorem preset_array_iff_list:
  fixes user :: "'u \<Rightarrow> 'u TypeChecker \<Rightarrow> pyval \<Rightarrow> bool"
  shows "\<exists>m. import_module = Inr m
     \<and> (\<forall>v. (is_type user (heap m) (draft3_type_checker m) v ''array'' = Inr True)
              = (\<exists>xs. v = PyList xs))
     \<and> (\<forall>v. (is_type user (heap m) (draft3_type_checker m) v ''array'' = Inr False)
              = (\<forall>xs. v \<noteq> PyList xs))
     \<and> (\<forall>v. (is_type user (heap m) (draft4_type_checker m) v ''array'' = Inr True)
              = (\<exists>xs. v = PyList xs))
     \<and> (\<forall>v. (is_type user (heap m) (draft4_type_checker m) v ''array'' = Inr False)
              = (\<forall>xs. v \<noteq> PyList xs))
     \<and> (\<forall>kvs. is_type user (heap m) (draft3_type_checker m) (PyDict kvs) ''array'' = Inr False)
     \<and> (\<forall>s. is_type user (heap m) (draft3_type_checker m) (PyStr s) ''array'' = Inr False)
     \<and> (\<forall>kvs. is_type user (heap m) (draft4_type_checker m) (PyDict kvs) ''array'' = Inr False)
     \<and> (\<forall>s. is_type user (heap m) (draft4_type_checker m) (PyStr s) ''array'' = Inr False)"
proof (rule exI, intro conjI)
  show "import_module = Inr \<lparr>heap = [\<lparr>type_checkers = dict draft3_items\<rparr>,
                 \<lparr>type_checkers = (dict draft3_items)(''any'' := None)\<rparr>],
          draft3_type_checker = 0, draft4_type_checker = 1\<rparr>"
    by (rule import_module_eq)
qed (simp_all add: is_type_cases draft3_array is_array_iff)

theorem preset_array_iff_list_witness:
  "\<exists>m. (import_module :: exn + unit module) = Inr m
     \<and> is_type no_user (heap m) (draft3_type_checker m) (PyList [PyInt 1]) ''array'' = Inr True
     \<and> is_type no_user (heap m) (draft4_type_checker m) (PyTuple [PyInt 1]) ''array'' = Inr False
     \<and> is_type no_user (heap m) (draft4_type_checker m) (PyStr ''ab'') ''array'' = Inr False"
proof -
  from preset_array_iff_list [of no_user] obtain m where
    m: "import_module = Inr m"
    and t3: "\<forall>v. (is_type no_user (heap m) (draft3_type_checker m) v ''array'' = Inr True)
              = (\<exists>xs. v = PyList xs)"
    and f4: "\<forall>v. (is_type no_user (heap m) (draft4_type_checker m) v ''array'' = Inr False)
              = (\<forall>xs. v \<noteq> PyList xs)"
    and s4: "\<forall>s. is_type no_user (heap m) (draft4_type_checker m) (PyStr s) ''array'' = Inr False"
    by (elim exE conjE)
  have 1: "is_type no_user (heap m) (draft3_type_checker m) (PyList [PyInt 1]) ''array'' = Inr True"
    by (simp add: t3 [rule_format])
  have 2: "is_type no_user (heap m) (draft4_type_checker m) (PyTuple [PyInt 1]) ''array'' = Inr False"
    by (simp add: f4 [rule_format])
  have 3: "is_type no_user (heap m) (draft4_type_checker m) (PyStr ''ab'') ''array'' = Inr False"
    by (rule s4 [rule_format])
  from m 1 2 3 show ?thesis by (intro exI [of _ m] conjI)
qed

text \<open>
  Claim C10, as amended. For a name \<open>t\<close> present in the receiver's mapping, a collection
  that contains \<open>t\<close> more than once always makes \<^verbatim>\<open>remove_many\<close> raise
  \<^verbatim>\<open>UndefinedTypeCheck\<close> and create no checker. The name carried is that of the first
  deletion to fail: every name before it is present and occurs once, it is itself absent
  or repeats an earlier name, and it comes no later than the second occurrence of \<open>t\<close>.
  So it is \<open>t\<close> when the second occurrence of \<open>t\<close> is the first deletion to fail, that
  is when the names up to it are pairwise distinct and the others among them are present
  (\<^verbatim>\<open>[t, t]\<close> is such a collection), and otherwise it is the earlier name whose deletion
  failed first.
\<close>

theorem remove_many_repeated_name:
  assumes "type_checkers (h ! r) t \<noteq> None" and "1 < count_list ts t"
  shows "(\<exists>pre t' post. ts = pre @ t' # post \<and> distinct pre
            \<and> (\<forall>x\<in>set pre. type_checkers (h ! r) x \<noteq> None)
            \<and> (type_checkers (h ! r) t' = None \<or> t' \<in> set pre)
            \<and> count_list pre t \<le> 1
            \<and> remove_many h r ts = (h, Inl (UndefinedTypeCheck t')))
       \<and> (\<forall>pre mid post. ts = pre @ t # mid @ t # post \<and> distinct (pre @ t # mid)
              \<and> (\<forall>x\<in>set (pre @ mid). type_checkers (h ! r) x \<noteq> None)
            \<longrightarrow> remove_many h r ts = (h, Inl (UndefinedTypeCheck t)))
       \<and> remove_many h r [t, t] = (h, Inl (UndefinedTypeCheck t))"
proof -
  let ?ev = "type_checkers (h ! r)"
  have rep: "remove_many h r (pre @ t # mid @ t # post) = (h, Inl (UndefinedTypeCheck t))"
    if d: "distinct (pre @ t # mid)" and p: "\<forall>x\<in>set (pre @ mid). ?ev x \<noteq> None"
    for pre mid post
  proof -
    from p assms(1) have s: "set (pre @ t # mid) \<subseteq> dom ?ev" by auto
    have "remove_loop ?ev ((pre @ t # mid) @ t # post)
        = remove_loop (?ev |` (- set (pre @ t # mid))) (t # post)"
      using d s by (rule remove_loop_append)
    also have "\<dots> = Inl (UndefinedTypeCheck t)"
      by (simp add: evolver_delitem_def)
    finally show ?thesis by (simp add: remove_many_cases)
  qed
  from assms(2) have "\<not> distinct ts" by (rule count_list_gt1_not_distinct)
  then have "\<not> (distinct ts \<and> set ts \<subseteq> dom ?ev)" by simp
  from remove_loop_fails [OF this] obtain e where e: "remove_loop ?ev ts = Inl e" ..
  from remove_loop_Inl [OF e] obtain pre t' post where
    ts: "ts = pre @ t' # post" and d: "distinct pre" and s: "set pre \<subseteq> dom ?ev"
    and a: "?ev t' = None \<or> t' \<in> set pre" and e': "e = UndefinedTypeCheck t'"
    by blast
  from s have p: "\<forall>x\<in>set pre. ?ev x \<noteq> None" by auto
  from d have c: "count_list pre t \<le> 1" by (rule count_list_distinct_le_1)
  have res: "remove_many h r ts = (h, Inl (UndefinedTypeCheck t'))"
    using e e' by (simp add: remove_many_cases)
  from ts d p a c res
  have 1: "\<exists>pre t' post. ts = pre @ t' # post \<and> distinct pre
            \<and> (\<forall>x\<in>set pre. ?ev x \<noteq> None)
            \<and> (?ev t' = None \<or> t' \<in> set pre)
            \<and> count_list pre t \<le> 1
            \<and> remove_many h r ts = (h, Inl (UndefinedTypeCheck t'))"
    by blast
  have 2: "\<forall>pre mid post. ts = pre @ t # mid @ t # post \<and> distinct (pre @ t # mid)
              \<and> (\<forall>x\<in>set (pre @ mid). ?ev x \<noteq> None)
            \<longrightarrow> remove_many h r ts = (h, Inl (UndefinedTypeCheck t))"
    using rep by blast
  have 3: "remove_many h r [t, t] = (h, Inl (UndefinedTypeCheck t))"
    using rep [of "[]" "[]" "[]"] by simp
  from 1 2 3 show ?thesis by (intro conjI)
qed

theorem remove_many_repeated_name_witness:
  "remove_many ab_heap 0 [''b'', ''a'', ''a''] = (ab_heap, Inl (UndefinedTypeCheck ''a''))
   \<and> remove_many ab_heap 0 [''a'', ''a''] = (ab_heap, Inl (UndefinedTypeCheck ''a''))
   \<and> remove_many ab_heap 0 [''c'', ''a'', ''a''] = (ab_heap, Inl (UndefinedTypeCheck ''c''))"
proof -
  have m: "type_checkers (ab_heap ! 0) = dict [(''a'', Is_any), (''b'', Is_null)]"
    by (simp add: ab_heap_def TypeChecker_new_def alloc_def)
  have a: "type_checkers (ab_heap ! 0) ''a'' \<noteq> None"
    and b: "type_checkers (ab_heap ! 0) ''b'' \<noteq> None"
    unfolding m by (simp_all add: dict_def)
  have c: "1 < count_list [''b'', ''a'', ''a''] ''a''" by simp
  note t = remove_many_repeated_name [OF a c]
  have "[''b'', ''a'', ''a''] = [''b''] @ ''a'' # [] @ ''a'' # []
      \<and> distinct ([''b''] @ ''a'' # [])
      \<and> (\<forall>x\<in>set ([''b''] @ []). type_checkers (ab_heap ! 0) x \<noteq> None)"
    using b by simp
  with t [THEN conjunct2, THEN conjunct1]
  have 1: "remove_many ab_heap 0 [''b'', ''a'', ''a''] = (ab_heap, Inl (UndefinedTypeCheck ''a''))"
    by blast
  have absent: "type_checkers (ab_heap ! 0) ''c'' = None"
    unfolding m by (simp add: dict_def)
  have c': "1 < count_list [''c'', ''a'', ''a''] ''a''" by simp
  from remove_many_repeated_name [OF a c', THEN conjunct1] obtain pre t' post where
    ts: "[''c'', ''a'', ''a''] = pre @ t' # post"
    and p: "\<forall>x\<in>set pre. type_checkers (ab_heap ! 0) x \<noteq> None"
    and res: "remove_many ab_heap 0 [''c'', ''a'', ''a''] = (ab_heap, Inl (UndefinedTypeCheck t'))"
    by blast
  have "pre = []"
  proof (cases pre)
    case Nil
    then show ?thesis .
  next
    case (Cons x xs)
    with ts have "x = ''c''" by simp
    with p Cons absent show ?thesis by simp
  qed
  with ts have "t' = ''c''" by simp
  with res have 2: "remove_many ab_heap 0 [''c'', ''a'', ''a'']
      = (ab_heap, Inl (UndefinedTypeCheck ''c''))" by simp
  from 1 t [THEN conjunct2, THEN conjunct2] 2 show ?thesis by (intro conjI)
qed

text \<open>
  Claim C10 as stated fails where another name fails first: on a checker that knows "a"
  and "b", the collection \<^verbatim>\<open>["b", "b", "a", "a"]\<close> contains "a" twice, and
  \<^verbatim>\<open>remove_many\<close> raises \<^verbatim>\<open>UndefinedTypeCheck("b")\<close>.
\<close>

theorem remove_many_earlier_repeat_wins:
  "type_checkers (ab_heap ! 0) ''a'' = Some Is_any
   \<and> count_list [''b'', ''b'', ''a'', ''a''] ''a'' = 2
   \<and> remove_many ab_heap 0 [''b'', ''b'', ''a'', ''a''] = (ab_heap, Inl (UndefinedTypeCheck ''b''))"
  by (simp add: remove_many_def ab_heap_def TypeChecker_new_def alloc_def dict_def
      evolver_delitem_def)

end
